theory Spec2Isabelle
  imports Main
begin

section \<open>ScoreForge front end: a shallow embedding\<close>

text \<open>
  The sources are the Next.js client of ScoreForge: \<^verbatim>\<open>types/job.ts\<close>,
  \<^verbatim>\<open>lib/api.ts\<close>, \<^verbatim>\<open>components/Uploader.tsx\<close>, \<^verbatim>\<open>components/OptionsForm.tsx\<close>,
  \<^verbatim>\<open>components/JobStatus.tsx\<close>, \<^verbatim>\<open>components/Results.tsx\<close> and \<^verbatim>\<open>app/page.tsx\<close>.
  React state is a record that every handler takes and returns; a promise that settles
  is an event delivered to the handler that awaits it; a thrown exception is a value.
  JavaScript numbers are modelled as \<open>int\<close> (no property below reads a fraction), strings
  as \<open>string\<close>, and \<open>null\<close>/\<open>undefined\<close> as \<open>None\<close>. The ellipsis character of the
  messages the page shows is written as three dots.
\<close>

subsection \<open>JavaScript helpers\<close>

text \<open>
  \<^verbatim>\<open>String(n)\<close> for an integer: its decimal digits, with a minus sign when negative.
  JavaScript prints an integer this way below \<open>10\<^sup>2\<^sup>1\<close> in magnitude; the function is
  used for HTTP status codes and for tempos.
\<close>

definition digit_char :: "nat \<Rightarrow> char" where
  "digit_char d = ''0123456789'' ! d"

fun String_nat :: "nat \<Rightarrow> string" where
  "String_nat n = (if n < 10 then [digit_char n] else String_nat (n div 10) @ [digit_char (n mod 10)])"

definition String_int :: "int \<Rightarrow> string" where
  "String_int i = (if i < 0 then CHR ''-'' # String_nat (nat (- i)) else String_nat (nat i))"

definition String_bool :: "bool \<Rightarrow> string" where
  "String_bool b = (if b then ''true'' else ''false'')"

text \<open>
  \<^verbatim>\<open>s.toLowerCase()\<close>. The letters A to Z are mapped to a to z. Every other character
  is left alone: no character outside ASCII lower-cases to a letter or digit of the four
  accepted extensions, so suffix tests against them are not affected.
\<close>

definition lower_char :: "char \<Rightarrow> char" where
  "lower_char c =
     (case map_of (zip ''ABCDEFGHIJKLMNOPQRSTUVWXYZ'' ''abcdefghijklmnopqrstuvwxyz'') c of
        Some l \<Rightarrow> l
      | None \<Rightarrow> c)"

definition toLowerCase :: "string \<Rightarrow> string" where
  "toLowerCase s = map lower_char s"

text \<open>\<^verbatim>\<open>s.endsWith(ext)\<close>.\<close>

definition endsWith :: "string \<Rightarrow> string \<Rightarrow> bool" where
  "endsWith s ext = (length ext \<le> length s \<and> drop (length s - length ext) s = ext)"

text \<open>Truthiness of a \<^verbatim>\<open>string | null | undefined\<close> and of a \<^verbatim>\<open>number | null | undefined\<close>.\<close>

definition truthy_string :: "string option \<Rightarrow> bool" where
  "truthy_string v = (case v of None \<Rightarrow> False | Some s \<Rightarrow> s \<noteq> [])"

definition truthy_number :: "int option \<Rightarrow> bool" where
  "truthy_number v = (case v of None \<Rightarrow> False | Some n \<Rightarrow> n \<noteq> 0)"

subsection \<open>types/job.ts\<close>

datatype JobStatus = Queued | Running | Done | Error

text \<open>
  \<^verbatim>\<open>export type ClefChoice = 'treble' | 'alto' | 'tenor'\<close> and
  \<^verbatim>\<open>export type QuantizationGrid = 'quarter' | 'eighth' | 'sixteenth'\<close>: a union of
  string literals is the list of its members. At run time a clef is the string the
  select element holds (\<^verbatim>\<open>event.target.value as JobOptions['clef']\<close> checks nothing).
\<close>

definition ClefChoice :: "string list" where
  "ClefChoice = [''treble'', ''alto'', ''tenor'']"

definition QuantizationGrid :: "string list" where
  "QuantizationGrid = [''quarter'', ''eighth'', ''sixteenth'']"

text \<open>\<^verbatim>\<open>JobMeta\<close>; its member \<^verbatim>\<open>tempo\<close> is \<open>meta_tempo\<close> here (the options have a \<open>tempo\<close> too).\<close>

record JobMeta =
  title :: "string option"
  key :: "string option"
  time_signature :: "string option"
  meta_tempo :: "int option"
  note_count :: "int option"
  duration_seconds :: "int option"

record JobArtifactUrls =
  pdf :: "string option"
  musicxml :: "string option"
  midi :: "string option"

record JobStatusResponse =
  status :: JobStatus
  progress :: int
  error :: "string option"
  urls :: JobArtifactUrls
  meta :: "JobMeta option"

record CreateJobResponse =
  job_id :: string

text \<open>The interface \<^verbatim>\<open>JobOptions\<close>, with the members it declares and no other.\<close>

record JobOptions =
  clef :: string
  tempo :: "int option"
  force_key :: "string option"
  detect_time_signature :: bool
  quantization :: string
  loose_quantization :: bool

definition JobOptions_members :: "string list" where
  "JobOptions_members =
     [''clef'', ''tempo'', ''force_key'', ''detect_time_signature'', ''quantization'',
      ''loose_quantization'']"

subsection \<open>components/Uploader.tsx\<close>

text \<open>A browser \<^verbatim>\<open>File\<close>: its name, its MIME type and its size in bytes.\<close>

record File =
  file_name :: string
  file_type :: string
  file_size :: nat

definition ACCEPTED_TYPES :: "string list" where
  "ACCEPTED_TYPES =
     [''audio/wav'', ''audio/x-wav'', ''audio/mpeg'', ''audio/mp3'', ''audio/x-m4a'',
      ''audio/flac'', ''audio/x-flac'']"

definition ACCEPTED_EXTENSIONS :: "string list" where
  "ACCEPTED_EXTENSIONS = [''.wav'', ''.mp3'', ''.m4a'', ''.flac'']"

text \<open>What one call of \<^verbatim>\<open>handleFiles\<close> does: nothing, an alert, or \<^verbatim>\<open>onFileSelected\<close>.\<close>

datatype uploader_effect = NoEffect | Alert string | OnFileSelected File

definition handleFiles :: "File list option \<Rightarrow> uploader_effect" where
  "handleFiles files =
     (case files of
        None \<Rightarrow> NoEffect
      | Some [] \<Rightarrow> NoEffect
      | Some (candidate # _) \<Rightarrow>
          (let isAllowedType =
                 (file_type candidate \<noteq> [] \<and> file_type candidate \<in> set ACCEPTED_TYPES);
               hasAllowedExtension =
                 list_ex (\<lambda>ext. endsWith (toLowerCase (file_name candidate)) ext)
                   ACCEPTED_EXTENSIONS
           in if \<not> (isAllowedType \<or> hasAllowedExtension)
              then Alert ''Unsupported file type. Please upload WAV, MP3, M4A, or FLAC files.''
              else OnFileSelected candidate))"

subsection \<open>components/JobStatus.tsx\<close>

definition statusLabels :: "JobStatus \<Rightarrow> string" where
  "statusLabels s =
     (case s of Queued \<Rightarrow> ''Queued'' | Running \<Rightarrow> ''Processing'' | Done \<Rightarrow> ''Complete''
      | Error \<Rightarrow> ''Error'')"

text \<open>
  What \<^verbatim>\<open>JobStatusPanel\<close> renders: the badge, then either the progress bar (its width
  in percent and its colour class) with a line of text, or the error box; and the
  "ready" box when the job is done.
\<close>

record progress_bar =
  bar_width :: int
  bar_class :: string

record status_panel =
  badge :: string
  bar :: "progress_bar option"
  caption :: "string option"
  error_box :: "string option"
  ready_box :: bool

definition JobStatusPanel ::
    "JobStatus \<Rightarrow> int \<Rightarrow> string option \<Rightarrow> string option \<Rightarrow> status_panel" where
  "JobStatusPanel status' progress' error' description =
     \<lparr> badge = statusLabels status',
       bar = (if status' \<noteq> Error
              then Some \<lparr> bar_width = (if status' = Done then 100 else progress'),
                          bar_class = (if status' = Done then ''bg-emerald-400'' else ''bg-accent'') \<rparr>
              else None),
       caption = (if status' \<noteq> Error
                  then Some (case description of
                               Some d \<Rightarrow> d
                             | None \<Rightarrow> (if status' = Running then ''Transcribing and engraving...''
                                         else ''Waiting for job to start...''))
                  else None),
       error_box = (if status' \<noteq> Error then None
                    else Some (case error' of
                                 Some e \<Rightarrow> e
                               | None \<Rightarrow> ''Unknown error encountered. Please try again.'')),
       ready_box = (status' = Done) \<rparr>"

subsection \<open>components/OptionsForm.tsx\<close>

text \<open>The entries of the two select elements: the value submitted and the label shown.\<close>

definition clefs :: "(string \<times> string) list" where
  "clefs = [(''treble'', ''Treble''), (''alto'', ''Alto''), (''tenor'', ''Tenor''), (''bass'', ''Bass'')]"

definition quantizationOptions :: "(string \<times> string) list" where
  "quantizationOptions =
     [(''quarter'', ''Quarter notes''), (''eighth'', ''Eighth notes''),
      (''sixteenth'', ''Sixteenth notes'')]"

text \<open>The attributes \<^verbatim>\<open>min={40} max={240}\<close> of the tempo input.\<close>

definition tempo_min :: int where
  "tempo_min = 40"

definition tempo_max :: int where
  "tempo_max = 240"

text \<open>
  The object the page holds as \<^verbatim>\<open>options\<close>. The interface \<^verbatim>\<open>JobOptions\<close> declares six
  members; the literal \<^verbatim>\<open>defaultOptions\<close> of \<^verbatim>\<open>app/page.tsx\<close> carries a seventh property,
  \<^verbatim>\<open>instrument\<close>, and the spread \<^verbatim>\<open>{ ...options, [key]: value }\<close> of \<^verbatim>\<open>handleChange\<close>
  keeps it. The run-time object is therefore the record extended by that property.
\<close>

record page_options = JobOptions +
  instrument :: string

text \<open>
  One change event of the form. A number input holds the empty string or a numeral, and
  \<^verbatim>\<open>Number\<close> of the numeral is its number: the tempo event carries \<open>None\<close> for the empty
  string and the number otherwise. The two checkboxes are told apart by their name.
\<close>

datatype checkbox_name = Detect_time_signature | Loose_quantization

datatype form_input =
    ClefSelected string
  | TempoTyped "int option"
  | ForceKeyTyped string
  | QuantizationSelected string
  | CheckboxChanged checkbox_name bool

text \<open>The \<^verbatim>\<open>onChange\<close> handlers: the options object passed to \<^verbatim>\<open>onChange\<close>.\<close>

definition OptionsForm_onChange :: "page_options \<Rightarrow> form_input \<Rightarrow> page_options" where
  "OptionsForm_onChange opts inp =
     (case inp of
        ClefSelected v \<Rightarrow> opts\<lparr>clef := v\<rparr>
      | TempoTyped v \<Rightarrow> opts\<lparr>tempo := (case v of Some n \<Rightarrow> Some n | None \<Rightarrow> None)\<rparr>
      | ForceKeyTyped v \<Rightarrow> opts\<lparr>force_key := (if v \<noteq> [] then Some v else None)\<rparr>
      | QuantizationSelected v \<Rightarrow> opts\<lparr>quantization := v\<rparr>
      | CheckboxChanged Detect_time_signature checked \<Rightarrow> opts\<lparr>detect_time_signature := checked\<rparr>
      | CheckboxChanged Loose_quantization checked \<Rightarrow> opts\<lparr>loose_quantization := checked\<rparr>)"

text \<open>
  The \<^verbatim>\<open>disabled\<close> attribute of the six controls of the form, in document order: every
  one of them is the \<^verbatim>\<open>disabled\<close> prop.
\<close>

definition OptionsForm_disabled :: "bool \<Rightarrow> (string \<times> bool) list" where
  "OptionsForm_disabled disabled =
     [(''clef'', disabled), (''tempo'', disabled), (''force_key'', disabled),
      (''quantization'', disabled), (''detect_time_signature'', disabled),
      (''loose_quantization'', disabled)]"

subsection \<open>components/Results.tsx\<close>

text \<open>\<^verbatim>\<open>Object.values(urls).some(Boolean)\<close>: the panel, and its reset button, are rendered only then.\<close>

definition hasResults :: "JobArtifactUrls \<Rightarrow> bool" where
  "hasResults u = (truthy_string (pdf u) \<or> truthy_string (musicxml u) \<or> truthy_string (midi u))"

subsection \<open>app/page.tsx: state and handlers\<close>

definition defaultOptions :: page_options where
  "defaultOptions =
     \<lparr> clef = ''treble'', tempo = None, force_key = None, detect_time_signature = True,
       quantization = ''eighth'', loose_quantization = False, instrument = ''piano'' \<rparr>"

text \<open>
  The state variables of \<^verbatim>\<open>HomePage\<close>. Three of them share a name with a member of
  \<^verbatim>\<open>JobStatusResponse\<close> and carry the suffix \<open>_state\<close> here.
\<close>

record page_state =
  selectedFile :: "File option"
  options :: page_options
  jobId :: "string option"
  status_state :: JobStatus
  progress_state :: int
  eta :: "int option"
  isUploading :: bool
  error_state :: "string option"
  statusDescription :: "string option"
  jobResult :: "JobStatusResponse option"

definition initial_state :: page_state where
  "initial_state =
     \<lparr> selectedFile = None, options = defaultOptions, jobId = None, status_state = Queued,
       progress_state = 0, eta = None, isUploading = False, error_state = None,
       statusDescription = None, jobResult = None \<rparr>"

definition onFileSelected :: "File \<Rightarrow> page_state \<Rightarrow> page_state" where
  "onFileSelected file s = s\<lparr>selectedFile := Some file, error_state := None\<rparr>"

definition onClearFile :: "page_state \<Rightarrow> page_state" where
  "onClearFile s = s\<lparr>selectedFile := None, error_state := None\<rparr>"

definition resetAll :: "page_state \<Rightarrow> page_state" where
  "resetAll s =
     s\<lparr>selectedFile := None, jobId := None, jobResult := None, progress_state := 0,
       status_state := Queued, eta := None, error_state := None, statusDescription := None,
       options := defaultOptions\<rparr>"

text \<open>\<^verbatim>\<open>FormData\<close>: the entries in the order they were appended.\<close>

datatype form_value = FileValue File | StringValue string

type_synonym FormData = "(string \<times> form_value) list"

definition formData_append :: "FormData \<Rightarrow> string \<Rightarrow> form_value \<Rightarrow> FormData" where
  "formData_append fd k v = fd @ [(k, v)]"

definition formData_has :: "FormData \<Rightarrow> string \<Rightarrow> bool" where
  "formData_has fd k = (map_of fd k \<noteq> None)"

text \<open>
  \<^verbatim>\<open>handleSubmit\<close> up to its \<^verbatim>\<open>await\<close>: the new state, and the form data handed to
  \<^verbatim>\<open>uploadJobWithProgress\<close> (\<open>None\<close> when it returned early and nothing was submitted).
\<close>

definition handleSubmit :: "page_state \<Rightarrow> page_state \<times> FormData option" where
  "handleSubmit s =
     (case selectedFile s of
        None \<Rightarrow> (s\<lparr>error_state := Some ''Please select an audio file first.''\<rparr>, None)
      | Some file \<Rightarrow>
          (let fd0 = formData_append [] ''file'' (FileValue file);
               fd1 = formData_append fd0 ''clef'' (StringValue (clef (options s)));
               fd2 = formData_append fd1 ''instrument'' (StringValue (instrument (options s)));
               fd3 = (if truthy_number (tempo (options s))
                      then formData_append fd2 ''tempo''
                             (StringValue (String_int (the (tempo (options s)))))
                      else fd2);
               fd4 = (if truthy_string (force_key (options s))
                      then formData_append fd3 ''force_key''
                             (StringValue (the (force_key (options s))))
                      else fd3);
               fd5 = formData_append fd4 ''detect_time_signature''
                       (StringValue (String_bool (detect_time_signature (options s))));
               fd6 = formData_append fd5 ''quantization'' (StringValue (quantization (options s)));
               fd7 = formData_append fd6 ''loose_quantization''
                       (StringValue (String_bool (loose_quantization (options s))))
           in (s\<lparr>isUploading := True, progress_state := 0, status_state := Queued,
                  statusDescription := Some ''Uploading audio...'', error_state := None,
                  eta := None, jobResult := None, jobId := None\<rparr>,
               Some fd7)))"

text \<open>The progress callback, and the two continuations of the \<^verbatim>\<open>await\<close>.\<close>

definition upload_onProgress :: "int \<Rightarrow> int option \<Rightarrow> page_state \<Rightarrow> page_state" where
  "upload_onProgress v estimatedSeconds s = s\<lparr>progress_state := v, eta := estimatedSeconds\<rparr>"

definition upload_resolved :: "CreateJobResponse \<Rightarrow> page_state \<Rightarrow> page_state" where
  "upload_resolved response s =
     s\<lparr>isUploading := False, jobId := Some (job_id response),
       statusDescription := Some ''Queued for processing...''\<rparr>"

definition upload_rejected :: "string \<Rightarrow> page_state \<Rightarrow> page_state" where
  "upload_rejected message s = s\<lparr>isUploading := False, error_state := Some message\<rparr>"

text \<open>
  The body of \<^verbatim>\<open>poll\<close> after its \<^verbatim>\<open>await\<close>, for an effect that was not cancelled: the
  state updates for a response, and for a failed fetch.
\<close>

definition describe_status :: "JobStatusResponse \<Rightarrow> string option" where
  "describe_status response =
     (case status response of
        Queued \<Rightarrow> Some ''Waiting in queue...''
      | Running \<Rightarrow>
          (if progress response < 50 then Some ''Transcribing audio to MIDI...''
           else if progress response < 90 then Some ''Quantizing and preparing MusicXML...''
           else Some ''Engraving score to PDF...'')
      | Done \<Rightarrow> Some ''Complete''
      | Error \<Rightarrow> Some (case error response of Some e \<Rightarrow> e | None \<Rightarrow> ''An error occurred''))"

definition poll_resolved :: "JobStatusResponse \<Rightarrow> page_state \<Rightarrow> page_state" where
  "poll_resolved response s =
     s\<lparr>jobResult := Some response, status_state := status response,
       progress_state := progress response, statusDescription := describe_status response\<rparr>"

definition poll_rejected :: "string \<Rightarrow> page_state \<Rightarrow> page_state" where
  "poll_rejected message s = s\<lparr>error_state := Some message\<rparr>"

text \<open>What the render derives from the state.\<close>

definition disableControls :: "page_state \<Rightarrow> bool" where
  "disableControls s =
     (isUploading s \<or> (jobId s \<noteq> None \<and> status_state s \<noteq> Error \<and> status_state s \<noteq> Done))"

definition submit_disabled :: "page_state \<Rightarrow> bool" where
  "submit_disabled s = (disableControls s \<or> selectedFile s = None)"

definition resultsUrls :: "page_state \<Rightarrow> JobArtifactUrls" where
  "resultsUrls s =
     (case jobResult s of
        Some r \<Rightarrow> urls r
      | None \<Rightarrow> \<lparr> pdf = None, musicxml = None, midi = None \<rparr>)"

subsection \<open>app/page.tsx: the polling effect\<close>

text \<open>
  The effect of \<^verbatim>\<open>useEffect(..., [jobId])\<close>. It does nothing for a job id that is null
  or empty. Otherwise it calls \<^verbatim>\<open>poll()\<close> at once and then sets the timer
  \<^verbatim>\<open>setInterval(poll, 1000)\<close>. Its local state is the flag \<^verbatim>\<open>cancelled\<close> and the timer;
  the model also keeps how often the timer has fired, the time (in milliseconds after the
  effect ran) of every call of \<^verbatim>\<open>fetchJobStatus\<close>, and how many of these calls have not
  settled yet. The timer fires at the multiples of its period.
\<close>

datatype fetch_outcome = Resolved JobStatusResponse | Rejected string

record poll_effect =
  cancelled :: bool
  interval_armed :: bool
  ticks :: nat
  requests :: "nat list"
  in_flight :: nat

definition POLL_INTERVAL_MS :: nat where
  "POLL_INTERVAL_MS = 1000"

text \<open>\<^verbatim>\<open>poll()\<close> up to its \<^verbatim>\<open>await\<close>, called at time \<open>now\<close>: the status request goes out.\<close>

definition poll_call :: "nat \<Rightarrow> poll_effect \<Rightarrow> poll_effect" where
  "poll_call now e = e\<lparr>requests := requests e @ [now], in_flight := Suc (in_flight e)\<rparr>"

definition effect_run :: "page_state \<Rightarrow> poll_effect option" where
  "effect_run s =
     (if \<not> truthy_string (jobId s) then None
      else Some ((poll_call 0
                    \<lparr> cancelled = False, interval_armed = False, ticks = 0, requests = [],
                      in_flight = 0 \<rparr>)
                 \<lparr>interval_armed := True\<rparr>))"

text \<open>
  \<^verbatim>\<open>poll()\<close> after its \<^verbatim>\<open>await\<close>: a response of a cancelled effect is dropped; otherwise
  the page state is updated and a done or error status clears the timer. A failed fetch
  sets the error message unless the effect was cancelled, and leaves the timer alone.
\<close>

definition poll_settle ::
    "fetch_outcome \<Rightarrow> poll_effect \<times> page_state \<Rightarrow> poll_effect \<times> page_state" where
  "poll_settle outcome st =
     (let e = (fst st)\<lparr>in_flight := in_flight (fst st) - 1\<rparr>; s = snd st
      in case outcome of
           Resolved response \<Rightarrow>
             (if cancelled e then (e, s)
              else (if status response = Done \<or> status response = Error
                    then e\<lparr>interval_armed := False\<rparr> else e,
                    poll_resolved response s))
         | Rejected message \<Rightarrow>
             (if \<not> cancelled e then (e, poll_rejected message s) else (e, s)))"

text \<open>
  What can happen to a running effect: its timer fires (only while it is set), one of its
  requests settles (only while one is in flight), or React runs its cleanup (once).
  \<open>None\<close> says that the event cannot happen in that state.
\<close>

datatype effect_event = TimerFires | FetchSettles fetch_outcome | Cleanup

definition effect_step ::
    "effect_event \<Rightarrow> poll_effect \<times> page_state \<Rightarrow> (poll_effect \<times> page_state) option" where
  "effect_step ev st =
     (case ev of
        TimerFires \<Rightarrow>
          (if interval_armed (fst st)
           then Some (poll_call (POLL_INTERVAL_MS * Suc (ticks (fst st)))
                        ((fst st)\<lparr>ticks := Suc (ticks (fst st))\<rparr>),
                      snd st)
           else None)
      | FetchSettles outcome \<Rightarrow>
          (if 0 < in_flight (fst st) then Some (poll_settle outcome st) else None)
      | Cleanup \<Rightarrow>
          (if cancelled (fst st) then None
           else Some ((fst st)\<lparr>cancelled := True, interval_armed := False\<rparr>, snd st)))"

fun effect_events ::
    "effect_event list \<Rightarrow> poll_effect \<times> page_state \<Rightarrow> (poll_effect \<times> page_state) option" where
  "effect_events [] st = Some st"
| "effect_events (ev # evs) st =
     (case effect_step ev st of None \<Rightarrow> None | Some st' \<Rightarrow> effect_events evs st')"

definition terminal :: "JobStatus \<Rightarrow> bool" where
  "terminal s = (s = Done \<or> s = Error)"

text \<open>
  A polling session in which every request settles, with a response, before the timer
  fires again: the status and progress the page shows after each response, until the
  timer no longer fires.
\<close>

fun poll_in_turn ::
    "JobStatusResponse list \<Rightarrow> poll_effect \<times> page_state \<Rightarrow> (JobStatus \<times> int) list" where
  "poll_in_turn [] st = []"
| "poll_in_turn (r # rs) st =
     (case effect_step (FetchSettles (Resolved r)) st of
        None \<Rightarrow> []
      | Some st' \<Rightarrow>
          (status_state (snd st'), progress_state (snd st')) #
          (case effect_step TimerFires st' of
             None \<Rightarrow> []
           | Some st'' \<Rightarrow> poll_in_turn rs st''))"

subsection \<open>Invariants of the polling effect\<close>

text \<open>The request times are the multiples of one second, one per call of \<^verbatim>\<open>poll\<close>.\<close>

definition on_schedule :: "poll_effect \<Rightarrow> bool" where
  "on_schedule e = (requests e = map (\<lambda>k. k * 1000) [0..<Suc (ticks e)])"

text \<open>A cancelled effect has no timer.\<close>

definition timer_ok :: "poll_effect \<Rightarrow> bool" where
  "timer_ok e = (cancelled e \<longrightarrow> \<not> interval_armed e)"

text \<open>The events that clear the timer of an effect that is not cancelled.\<close>

definition stops :: "effect_event \<Rightarrow> bool" where
  "stops ev =
     (case ev of
        Cleanup \<Rightarrow> True
      | FetchSettles (Resolved r) \<Rightarrow> terminal (status r)
      | _ \<Rightarrow> False)"

subsection \<open>lib/api.ts\<close>

text \<open>
  A value that \<^verbatim>\<open>JSON.parse\<close> returns. Numbers are integers here; a fraction is not
  modelled. An object is the list of its keys, each once, with their values.
\<close>

datatype json =
    JNull
  | JBool bool
  | JNumber int
  | JString string
  | JArray "json list"
  | JObject "(string \<times> json) list"

text \<open>
  The values thrown or rejected with: \<^verbatim>\<open>new Error(message)\<close>, the \<^verbatim>\<open>SyntaxError\<close> of
  \<^verbatim>\<open>JSON.parse\<close> and the \<^verbatim>\<open>TypeError\<close> of reading a property of null.
\<close>

datatype js_error = JsError string | JsSyntaxError | JsTypeError

text \<open>How a promise settles.\<close>

datatype 'a settled = Resolves 'a | Rejects js_error





text \<open>\<^verbatim>\<open>xhr.onerror\<close>.\<close>

definition xhr_onerror :: "json settled" where
  "xhr_onerror = Rejects (JsError ''Network error during upload'')"

subsection \<open>app/page.tsx: the page as a transition system\<close>

text \<open>
  Everything that can change the state of \<^verbatim>\<open>HomePage\<close>: the user offers files to the
  uploader (the file input or a drop), clicks the remove button, changes a control of the
  form, submits the form, or clicks "New transcription"; the upload reports progress,
  resolves or rejects; a status request of the current job's effect resolves or rejects.
\<close>

datatype page_event =
    FilesOffered "File list option"
  | ClearClicked
  | FormChanged form_input
  | SubmitClicked
  | UploadProgress int "int option"
  | UploadResolved CreateJobResponse
  | UploadRejected string
  | PollResolved JobStatusResponse
  | PollRejected string
  | ResetClicked

text \<open>
  When an event can happen. The remove button is rendered with a file and disabled while
  uploading; the controls of the form are disabled by \<^verbatim>\<open>disableControls\<close>; the submit
  button by \<^verbatim>\<open>disableControls || !selectedFile\<close>; the upload settles, and reports
  progress, only while it runs, which is while \<^verbatim>\<open>isUploading\<close> holds; a polling effect
  exists only for a job id that is neither null nor empty, and the responses of an
  earlier effect are dropped by its \<^verbatim>\<open>cancelled\<close> flag; the reset button is part of the
  results panel, which is rendered only when \<^verbatim>\<open>hasResults\<close> holds. The drop handler of the
  uploader is never disabled.
\<close>

definition enabled :: "page_state \<Rightarrow> page_event \<Rightarrow> bool" where
  "enabled s ev =
     (case ev of
        FilesOffered files \<Rightarrow> True
      | ClearClicked \<Rightarrow> selectedFile s \<noteq> None \<and> \<not> isUploading s
      | FormChanged inp \<Rightarrow> \<not> disableControls s
      | SubmitClicked \<Rightarrow> \<not> submit_disabled s
      | UploadProgress v estimatedSeconds \<Rightarrow> isUploading s
      | UploadResolved response \<Rightarrow> isUploading s
      | UploadRejected message \<Rightarrow> isUploading s
      | PollResolved response \<Rightarrow> truthy_string (jobId s)
      | PollRejected message \<Rightarrow> truthy_string (jobId s)
      | ResetClicked \<Rightarrow> hasResults (resultsUrls s))"

definition page_step :: "page_event \<Rightarrow> page_state \<Rightarrow> page_state" where
  "page_step ev s =
     (case ev of
        FilesOffered files \<Rightarrow>
          (case handleFiles files of OnFileSelected file \<Rightarrow> onFileSelected file s | _ \<Rightarrow> s)
      | ClearClicked \<Rightarrow> onClearFile s
      | FormChanged inp \<Rightarrow> s\<lparr>options := OptionsForm_onChange (options s) inp\<rparr>
      | SubmitClicked \<Rightarrow> fst (handleSubmit s)
      | UploadProgress v estimatedSeconds \<Rightarrow> upload_onProgress v estimatedSeconds s
      | UploadResolved response \<Rightarrow> upload_resolved response s
      | UploadRejected message \<Rightarrow> upload_rejected message s
      | PollResolved response \<Rightarrow> poll_resolved response s
      | PollRejected message \<Rightarrow> poll_rejected message s
      | ResetClicked \<Rightarrow> resetAll s)"

fun page_events :: "page_event list \<Rightarrow> page_state \<Rightarrow> page_state option" where
  "page_events [] s = Some s"
| "page_events (ev # evs) s = (if enabled s ev then page_events evs (page_step ev s) else None)"

text \<open>While an upload runs there is no job id, no job result, and the status is queued.\<close>

definition upload_inv :: "page_state \<Rightarrow> bool" where
  "upload_inv s = (isUploading s \<longrightarrow> jobId s = None \<and> jobResult s = None \<and> status_state s = Queued)"

text \<open>The events after which the controls are no longer disabled.\<close>

definition reenables :: "page_event \<Rightarrow> bool" where
  "reenables ev =
     (case ev of
        UploadRejected message \<Rightarrow> True
      | PollResolved response \<Rightarrow> terminal (status response)
      | ResetClicked \<Rightarrow> True
      | _ \<Rightarrow> False)"

section \<open>The pipeline runner and the status endpoint\<close>

text \<open>
  The backend that runs a job and answers the status requests is not among the sources;
  only its caller, \<^verbatim>\<open>poll\<close>, is. This section models it from sections 3, 4.2 and 5 of the
  specification, as far as the status and the progress of one job go.
\<close>

text \<open>Modelled from the spec: the five stages of the pipeline.\<close>

datatype stage = Normalize | Transcribe | Quantize | Assemble | Engrave

text \<open>Modelled from the spec: the order in which the runner executes the stages.\<close>

definition pipeline :: "stage list" where
  "pipeline = [Normalize, Transcribe, Quantize, Assemble, Engrave]"

text \<open>
  Modelled from the spec: the progress checkpoint at the completion of each stage (the
  scheme the spec gives as its example: 10, 50, 65, 85 and 100 percent).
\<close>

fun checkpoint :: "stage \<Rightarrow> int" where
  "checkpoint Normalize = 10"
| "checkpoint Transcribe = 50"
| "checkpoint Quantize = 65"
| "checkpoint Assemble = 85"
| "checkpoint Engrave = 100"

text \<open>
  Modelled from the spec: the stages with a defined fallback, the bundled transcription
  and the placeholder renderer. A fallback is always available.
\<close>

fun has_fallback :: "stage \<Rightarrow> bool" where
  "has_fallback Transcribe = True"
| "has_fallback Engrave = True"
| "has_fallback _ = False"

text \<open>
  Modelled from the spec: how the primary implementation of a stage ends. Exceeding the
  stage's maximum duration counts as its failure.
\<close>

datatype stage_outcome = Completed | Failed

text \<open>
  Modelled from the spec: the Pipeline Runner, as the list of the status and progress
  values it writes into the job record, entered with the progress written last. A stage
  that fails without a fallback ends the run in error, with the progress as it stands; a
  stage that completes, by itself or by its fallback, writes its checkpoint; the
  completion of the last stage is the success path, which sets progress to 100 and the
  status to done in one write (a reader never sees progress 100 while running).
\<close>

fun run_stages :: "(stage \<Rightarrow> stage_outcome) \<Rightarrow> stage list \<Rightarrow> int \<Rightarrow> (JobStatus \<times> int) list" where
  "run_stages primary [] p = [(Done, 100)]"
| "run_stages primary (st # rest) p =
     (if primary st = Failed \<and> \<not> has_fallback st then [(Error, p)]
      else if rest = [] then [(Done, 100)]
      else (Running, checkpoint st) # run_stages primary rest (checkpoint st))"

text \<open>
  Modelled from the spec: the life of a job record. It is created queued (progress 0), is
  set to running with progress 0 on dequeue, and is then written by the runner.
\<close>

definition job_timeline :: "(stage \<Rightarrow> stage_outcome) \<Rightarrow> (JobStatus \<times> int) list" where
  "job_timeline primary = (Queued, 0) # (Running, 0) # run_stages primary pipeline 0"

text \<open>
  Modelled from the spec: the status endpoint. A status request that arrives when the
  record has been written \<open>n\<close> times since its creation reads the record as it then
  stands; a record in a terminal state is not written again.
\<close>

definition status_at :: "(JobStatus \<times> int) list \<Rightarrow> nat \<Rightarrow> JobStatus \<times> int" where
  "status_at timeline n = timeline ! min n (length timeline - 1)"

subsection \<open>Notions used in the proofs about polling\<close>

text \<open>A list of observations up to, and with, the first terminal one.\<close>

fun until_terminal :: "(JobStatus \<times> int) list \<Rightarrow> (JobStatus \<times> int) list" where
  "until_terminal [] = []"
| "until_terminal (x # xs) = x # (if terminal (fst x) then [] else until_terminal xs)"

text \<open>The status and progress of a response.\<close>

definition snapshot :: "JobStatusResponse \<Rightarrow> JobStatus \<times> int" where
  "snapshot r = (status r, progress r)"

section \<open>Example inputs\<close>

definition example_file :: File where
  "example_file = \<lparr> file_name = ''melody.mp3'', file_type = ''audio/mpeg'', file_size = 1048576 \<rparr>"

definition small_wav :: File where
  "small_wav = \<lparr> file_name = ''Take 1.WAV'', file_type = [], file_size = 1024 \<rparr>"

definition big_wav :: File where
  "big_wav = \<lparr> file_name = ''Take 1.WAV'', file_type = [], file_size = 26214400 \<rparr>"

definition example_options :: page_options where
  "example_options = defaultOptions\<lparr>tempo := Some 120, force_key := Some ''C major''\<rparr>"

definition example_ready :: page_state where
  "example_ready = initial_state\<lparr>selectedFile := Some example_file, options := example_options\<rparr>"

definition no_urls :: JobArtifactUrls where
  "no_urls = \<lparr> pdf = None, musicxml = None, midi = None \<rparr>"

definition running_response :: JobStatusResponse where
  "running_response =
     \<lparr> status = Running, progress = 50, error = None,
       urls = no_urls\<lparr>midi := Some ''/results/job-1/transcription.mid''\<rparr>, meta = None \<rparr>"

definition done_response :: JobStatusResponse where
  "done_response =
     \<lparr> status = Done, progress = 100, error = None,
       urls = \<lparr> pdf = Some ''/results/job-1/score.pdf'',
                musicxml = Some ''/results/job-1/score.musicxml'',
                midi = Some ''/results/job-1/transcription.mid'' \<rparr>,
       meta = None \<rparr>"

definition example_polling :: page_state where
  "example_polling = upload_resolved \<lparr> job_id = ''job-1'' \<rparr> (fst (handleSubmit example_ready))"

definition example_effect :: poll_effect where
  "example_effect =
     \<lparr> cancelled = False, interval_armed = True, ticks = 0, requests = [0], in_flight = 1 \<rparr>"

definition example_events :: "effect_event list" where
  "example_events =
     [FetchSettles (Resolved running_response), TimerFires, FetchSettles (Rejected ''Failed to fetch'')]"






text \<open>
  The effect of the example job receives a running response, and then React runs its
  cleanup, as it does when "New transcription" sets the job id to null.
\<close>

definition reset_while_running :: "effect_event list" where
  "reset_while_running = [FetchSettles (Resolved running_response), Cleanup]"

definition example_session :: "page_event list" where
  "example_session =
     [FilesOffered (Some [example_file]), SubmitClicked, UploadResolved \<lparr> job_id = ''job-1'' \<rparr>,
      PollResolved running_response]"

text \<open>A run in which the primary transcription fails and every other stage completes.\<close>

definition transcriber_down :: "stage \<Rightarrow> stage_outcome" where
  "transcriber_down st = (if st = Transcribe then Failed else Completed)"

text \<open>Responses to six polls that saw the record after 0, 1, 1, 3, 5 and 6 writes.\<close>

definition example_positions :: "nat list" where
  "example_positions = [0, 1, 1, 3, 5, 6]"

definition response_of :: "JobStatus \<times> int \<Rightarrow> JobStatusResponse" where
  "response_of x = \<lparr> status = fst x, progress = snd x, error = None, urls = no_urls, meta = None \<rparr>"

definition example_responses :: "JobStatusResponse list" where
  "example_responses = map (\<lambda>n. response_of (status_at (job_timeline transcriber_down) n)) example_positions"

section \<open>Properties\<close>

subsection \<open>Helper facts\<close>

lemma endsWith_append: "endsWith (xs @ ext) ext"
  by (simp add: endsWith_def)

lemma toLowerCase_append: "toLowerCase (xs @ ys) = toLowerCase xs @ toLowerCase ys"
  by (simp add: toLowerCase_def)

lemma toLowerCase_wav: "toLowerCase ''.wav'' = ''.wav''"
  by (simp add: toLowerCase_def lower_char_def)

subsection \<open>The status panel\<close>

text \<open>
  C8. Whenever the panel is rendered for a job that is done, the progress bar is there
  and is 100 percent wide whatever progress value was passed in; for a queued or running
  job the bar is there and its width is the progress value passed in.
\<close>

theorem C8_progress_bar_width:
  "bar (JobStatusPanel Done p e d) \<noteq> None
   \<and> bar_width (the (bar (JobStatusPanel Done p e d))) = 100
   \<and> bar (JobStatusPanel Queued p e d) \<noteq> None
   \<and> bar_width (the (bar (JobStatusPanel Queued p e d))) = p
   \<and> bar (JobStatusPanel Running p e d) \<noteq> None
   \<and> bar_width (the (bar (JobStatusPanel Running p e d))) = p"
  by (simp add: JobStatusPanel_def)

subsection \<open>The uploader\<close>

lemma handleFiles_accepts_iff:
  "(handleFiles (Some (candidate # rest)) = OnFileSelected candidate) =
     (file_type candidate \<in> {''audio/wav'', ''audio/x-wav'', ''audio/mpeg'', ''audio/mp3'',
                                ''audio/x-m4a'', ''audio/flac'', ''audio/x-flac''}
      \<or> endsWith (toLowerCase (file_name candidate)) ''.wav''
      \<or> endsWith (toLowerCase (file_name candidate)) ''.mp3''
      \<or> endsWith (toLowerCase (file_name candidate)) ''.m4a''
      \<or> endsWith (toLowerCase (file_name candidate)) ''.flac'')"
  unfolding handleFiles_def Let_def ACCEPTED_TYPES_def ACCEPTED_EXTENSIONS_def
  by auto

lemma handleFiles_alert_iff:
  "(handleFiles (Some (candidate # rest)) =
      Alert ''Unsupported file type. Please upload WAV, MP3, M4A, or FLAC files.'') =
     (handleFiles (Some (candidate # rest)) \<noteq> OnFileSelected candidate)"
  unfolding handleFiles_def Let_def
  by simp

text \<open>
  C5. A candidate file is handed to \<^verbatim>\<open>onFileSelected\<close> if and only if its MIME type is
  one of the seven accepted audio types or its lower-cased name ends in one of the four
  extensions; in every other case the unsupported-type alert is raised and no file is
  selected.
\<close>

theorem C5_handleFiles_selects_iff_supported:
  "(handleFiles (Some (candidate # rest)) = OnFileSelected candidate \<longleftrightarrow>
      (file_type candidate \<in> {''audio/wav'', ''audio/x-wav'', ''audio/mpeg'', ''audio/mp3'',
                                 ''audio/x-m4a'', ''audio/flac'', ''audio/x-flac''}
       \<or> endsWith (toLowerCase (file_name candidate)) ''.wav''
       \<or> endsWith (toLowerCase (file_name candidate)) ''.mp3''
       \<or> endsWith (toLowerCase (file_name candidate)) ''.m4a''
       \<or> endsWith (toLowerCase (file_name candidate)) ''.flac''))
   \<and> (handleFiles (Some (candidate # rest)) =
         Alert ''Unsupported file type. Please upload WAV, MP3, M4A, or FLAC files.'' \<longleftrightarrow>
       handleFiles (Some (candidate # rest)) \<noteq> OnFileSelected candidate)"
  using handleFiles_accepts_iff [of candidate rest] handleFiles_alert_iff [of candidate rest]
  by blast

lemma handleFiles_same_name_type:
  assumes "file_type a = file_type b" and "file_name a = file_name b"
  shows "(handleFiles (Some (a # as)) = OnFileSelected a) = (handleFiles (Some (b # bs)) = OnFileSelected b)"
  using assms by (simp add: handleFiles_accepts_iff)

lemma handleFiles_wav_name:
  "handleFiles (Some (\<lparr> file_name = base @ ''.wav'', file_type = ty, file_size = sz \<rparr> # rest)) =
     OnFileSelected \<lparr> file_name = base @ ''.wav'', file_type = ty, file_size = sz \<rparr>"
proof -
  have "endsWith (toLowerCase (base @ ''.wav'')) ''.wav''"
    using endsWith_append [of "toLowerCase base" "''.wav''"]
    by (simp only: toLowerCase_append toLowerCase_wav)
  then show ?thesis
    by (simp add: handleFiles_accepts_iff)
qed

lemma handleSubmit_file:
  "selectedFile s = Some f \<Longrightarrow>
     \<exists>fd. snd (handleSubmit s) = Some fd \<and> map_of fd ''file'' = Some (FileValue f)"
  by (simp add: handleSubmit_def Let_def formData_append_def)

text \<open>
  C9. Whether \<^verbatim>\<open>handleFiles\<close> selects a candidate depends on its MIME type and its name
  only: two candidates with the same type and name are both selected or both refused,
  whatever their sizes. A candidate whose lower-cased name ends in \<open>.wav\<close> is selected
  whatever its size, and a selected file of any size is put into the form data that
  \<^verbatim>\<open>handleSubmit\<close> hands to the upload.
\<close>

theorem C9_acceptance_ignores_size:
  "(file_type a = file_type b \<and> file_name a = file_name b \<longrightarrow>
      (handleFiles (Some [a]) = OnFileSelected a \<longleftrightarrow> handleFiles (Some [b]) = OnFileSelected b))
   \<and> (endsWith (toLowerCase (file_name c)) ''.wav'' \<longrightarrow>
        handleFiles (Some [c\<lparr>file_size := sz\<rparr>]) = OnFileSelected (c\<lparr>file_size := sz\<rparr>))
   \<and> (\<exists>fd. snd (handleSubmit (onFileSelected c s)) = Some fd
            \<and> map_of fd ''file'' = Some (FileValue c))"
proof -
  have "selectedFile (onFileSelected c s) = Some c"
    by (simp add: onFileSelected_def)
  from handleSubmit_file [OF this] handleFiles_same_name_type [of a b "[]" "[]"]
  show ?thesis
    by (simp add: handleFiles_accepts_iff)
qed

theorem C9_witness:
  "file_type small_wav = file_type big_wav \<and> file_name small_wav = file_name big_wav
   \<and> file_size small_wav = 1024 \<and> file_size big_wav = 25 * 1024 * 1024
   \<and> handleFiles (Some [small_wav]) = OnFileSelected small_wav
   \<and> handleFiles (Some [big_wav]) = OnFileSelected big_wav
   \<and> map_of (the (snd (handleSubmit (onFileSelected big_wav initial_state)))) ''file'' =
       Some (FileValue big_wav)"
proof -
  have same: "file_type small_wav = file_type big_wav \<and> file_name small_wav = file_name big_wav"
    by (simp add: small_wav_def big_wav_def)
  have sizes: "file_size small_wav = 1024 \<and> file_size big_wav = 25 * 1024 * 1024"
    by (simp add: small_wav_def big_wav_def)
  have wav: "endsWith (toLowerCase (file_name small_wav)) ''.wav''"
    by (simp add: small_wav_def toLowerCase_def lower_char_def endsWith_def)
  have big: "small_wav\<lparr>file_size := 26214400\<rparr> = big_wav"
    by (simp add: small_wav_def big_wav_def)
  note inst = C9_acceptance_ignores_size [of small_wav big_wav small_wav 26214400 initial_state]
  from inst wav big have b: "handleFiles (Some [big_wav]) = OnFileSelected big_wav"
    by simp
  with inst same have a: "handleFiles (Some [small_wav]) = OnFileSelected small_wav"
    by blast
  from C9_acceptance_ignores_size [of small_wav big_wav big_wav 26214400 initial_state]
  have c: "map_of (the (snd (handleSubmit (onFileSelected big_wav initial_state)))) ''file'' =
       Some (FileValue big_wav)"
    by auto
  from same sizes a b c show ?thesis by simp
qed

subsection \<open>The submitted form data\<close>

lemma handleSubmit_formData:
  assumes "selectedFile s = Some f"
  shows "\<exists>fd. snd (handleSubmit s) = Some fd
     \<and> (formData_has fd ''tempo'' \<longleftrightarrow> truthy_number (tempo (options s)))
     \<and> (\<forall>t. truthy_number (tempo (options s)) \<and> tempo (options s) = Some t \<longrightarrow>
            map_of fd ''tempo'' = Some (StringValue (String_int t)))
     \<and> (formData_has fd ''force_key'' \<longleftrightarrow> truthy_string (force_key (options s)))
     \<and> (\<forall>k. truthy_string (force_key (options s)) \<and> force_key (options s) = Some k \<longrightarrow>
            map_of fd ''force_key'' = Some (StringValue k))"
  using assms
  by (auto simp add: handleSubmit_def Let_def formData_append_def formData_has_def)

text \<open>
  C6. For a submission whose tempo is unset or within the range the form allows (40 to
  240), the form data has a \<^verbatim>\<open>tempo\<close> entry exactly when a tempo is set, and its value is
  the tempo in decimal; it has a \<^verbatim>\<open>force_key\<close> entry exactly when the key is a non-empty
  string, and its value is that string. The form stores an empty key input as null and a
  non-empty one as typed, and stores the tempo input as it is (null when empty).
\<close>

theorem C6_optional_fields_omitted_when_absent:
  assumes "selectedFile s = Some f"
    and "tempo (options s) = None
         \<or> (\<exists>t. tempo (options s) = Some t \<and> tempo_min \<le> t \<and> t \<le> tempo_max)"
  shows "\<exists>fd. snd (handleSubmit s) = Some fd
     \<and> (formData_has fd ''tempo'' \<longleftrightarrow> tempo (options s) \<noteq> None)
     \<and> (\<forall>t. tempo (options s) = Some t \<longrightarrow>
            map_of fd ''tempo'' = Some (StringValue (String_int t)))
     \<and> (formData_has fd ''force_key'' \<longleftrightarrow> (\<exists>k. force_key (options s) = Some k \<and> k \<noteq> []))
     \<and> (\<forall>k. force_key (options s) = Some k \<and> k \<noteq> [] \<longrightarrow>
            map_of fd ''force_key'' = Some (StringValue k))
     \<and> force_key (OptionsForm_onChange opts (ForceKeyTyped [])) = None
     \<and> (\<forall>v. v \<noteq> [] \<longrightarrow> force_key (OptionsForm_onChange opts (ForceKeyTyped v)) = Some v)
     \<and> tempo (OptionsForm_onChange opts (TempoTyped n)) = n"
proof -
  have tn: "truthy_number (tempo (options s)) \<longleftrightarrow> tempo (options s) \<noteq> None"
    using assms(2) by (auto simp add: truthy_number_def tempo_min_def)
  have ts: "truthy_string (force_key (options s)) \<longleftrightarrow> (\<exists>k. force_key (options s) = Some k \<and> k \<noteq> [])"
    by (cases "force_key (options s)") (simp_all add: truthy_string_def)
  have form: "force_key (OptionsForm_onChange opts (ForceKeyTyped [])) = None
     \<and> (\<forall>v. v \<noteq> [] \<longrightarrow> force_key (OptionsForm_onChange opts (ForceKeyTyped v)) = Some v)
     \<and> tempo (OptionsForm_onChange opts (TempoTyped n)) = n"
    by (cases n) (simp_all add: OptionsForm_onChange_def)
  obtain fd where fd: "snd (handleSubmit s) = Some fd"
     "formData_has fd ''tempo'' \<longleftrightarrow> truthy_number (tempo (options s))"
     "\<forall>t. truthy_number (tempo (options s)) \<and> tempo (options s) = Some t \<longrightarrow>
            map_of fd ''tempo'' = Some (StringValue (String_int t))"
     "formData_has fd ''force_key'' \<longleftrightarrow> truthy_string (force_key (options s))"
     "\<forall>k. truthy_string (force_key (options s)) \<and> force_key (options s) = Some k \<longrightarrow>
            map_of fd ''force_key'' = Some (StringValue k)"
    using handleSubmit_formData [OF assms(1)] by blast
  show ?thesis
    using fd tn ts form by (intro exI [of _ fd]) auto
qed

theorem C6_witness:
  "selectedFile example_ready = Some example_file
   \<and> tempo (options example_ready) = Some 120 \<and> tempo_min \<le> 120 \<and> 120 \<le> tempo_max
   \<and> map_of (the (snd (handleSubmit example_ready))) ''tempo'' = Some (StringValue ''120'')
   \<and> map_of (the (snd (handleSubmit example_ready))) ''force_key'' = Some (StringValue ''C major'')
   \<and> \<not> formData_has (the (snd (handleSubmit (example_ready\<lparr>options := defaultOptions\<rparr>)))) ''tempo''"
proof -
  have f: "selectedFile example_ready = Some example_file"
    by (simp add: example_ready_def initial_state_def)
  have t: "tempo (options example_ready) = Some 120"
    by (simp add: example_ready_def example_options_def)
  have k: "force_key (options example_ready) = Some ''C major''"
    by (simp add: example_ready_def example_options_def)
  have r: "tempo_min \<le> 120 \<and> 120 \<le> tempo_max"
    by (simp add: tempo_min_def tempo_max_def)
  have s120: "String_int 120 = ''120''"
    by (simp add: String_int_def digit_char_def)
  have f2: "selectedFile (example_ready\<lparr>options := defaultOptions\<rparr>) = Some example_file"
    by (simp add: example_ready_def initial_state_def)
  have t2: "tempo (options (example_ready\<lparr>options := defaultOptions\<rparr>)) = None"
    by (simp add: defaultOptions_def)
  have h: "tempo (options example_ready) = None
         \<or> (\<exists>t. tempo (options example_ready) = Some t \<and> tempo_min \<le> t \<and> t \<le> tempo_max)"
    using t r by simp
  have h2: "tempo (options (example_ready\<lparr>options := defaultOptions\<rparr>)) = None
         \<or> (\<exists>t. tempo (options (example_ready\<lparr>options := defaultOptions\<rparr>)) = Some t
                \<and> tempo_min \<le> t \<and> t \<le> tempo_max)"
    using t2 by simp
  obtain fd where fd: "snd (handleSubmit example_ready) = Some fd"
      "\<forall>t. tempo (options example_ready) = Some t \<longrightarrow>
            map_of fd ''tempo'' = Some (StringValue (String_int t))"
      "\<forall>k. force_key (options example_ready) = Some k \<and> k \<noteq> [] \<longrightarrow>
            map_of fd ''force_key'' = Some (StringValue k)"
    using C6_optional_fields_omitted_when_absent [OF f h, of defaultOptions None] by blast
  obtain fd2 where fd2: "snd (handleSubmit (example_ready\<lparr>options := defaultOptions\<rparr>)) = Some fd2"
      "formData_has fd2 ''tempo'' \<longleftrightarrow> tempo (options (example_ready\<lparr>options := defaultOptions\<rparr>)) \<noteq> None"
    using C6_optional_fields_omitted_when_absent [OF f2 h2, of defaultOptions None] by blast
  have a: "map_of (the (snd (handleSubmit example_ready))) ''tempo'' = Some (StringValue ''120'')"
    using fd(1) fd(2) t s120 by simp
  have b: "map_of (the (snd (handleSubmit example_ready))) ''force_key'' = Some (StringValue ''C major'')"
    using fd(1) fd(3) k by simp
  have c: "\<not> formData_has (the (snd (handleSubmit (example_ready\<lparr>options := defaultOptions\<rparr>)))) ''tempo''"
    using fd2 t2 by simp
  show ?thesis
    using f t r a b c by simp
qed

text \<open>
  C2. The form offers the four clefs treble, alto, tenor and bass, and every member of
  the type \<^verbatim>\<open>ClefChoice\<close> is one of them; but bass, which the form offers, is not a
  member of \<^verbatim>\<open>ClefChoice\<close>.
\<close>

theorem C2_bass_offered_not_admitted:
  "map fst clefs = [''treble'', ''alto'', ''tenor'', ''bass'']
   \<and> set ClefChoice \<subseteq> set (map fst clefs)
   \<and> ''bass'' \<notin> set ClefChoice"
  by (simp add: clefs_def ClefChoice_def)

text \<open>
  C3. Every submission carries an \<^verbatim>\<open>instrument\<close> entry holding the instrument of the
  options object, which starts as piano and which no control of the form changes; but
  \<^verbatim>\<open>instrument\<close> is not a member that the interface \<^verbatim>\<open>JobOptions\<close> declares.
\<close>

theorem C3_instrument_sent_but_not_declared:
  "map_of (the (snd (handleSubmit (onFileSelected f s)))) ''instrument'' =
     Some (StringValue (instrument (options s)))
   \<and> instrument defaultOptions = ''piano''
   \<and> instrument (OptionsForm_onChange opts inp) = instrument opts
   \<and> ''instrument'' \<notin> set JobOptions_members"
proof -
  have "instrument (OptionsForm_onChange opts inp) = instrument opts"
    by (cases inp) (simp_all add: OptionsForm_onChange_def split: checkbox_name.splits)
  then show ?thesis
    by (simp add: handleSubmit_def onFileSelected_def Let_def formData_append_def
        defaultOptions_def JobOptions_members_def)
qed

subsection \<open>The polling effect\<close>

lemma effect_run_state:
  "effect_run s = Some e \<Longrightarrow>
     e = \<lparr> cancelled = False, interval_armed = True, ticks = 0, requests = [0], in_flight = 1 \<rparr>"
  by (auto simp add: effect_run_def poll_call_def split: if_splits)

lemma poll_settle_fst:
  "fst (poll_settle outcome st) =
     (fst st)\<lparr>in_flight := in_flight (fst st) - 1,
              interval_armed :=
                (case outcome of
                   Resolved r \<Rightarrow> interval_armed (fst st) \<and> (cancelled (fst st) \<or> \<not> terminal (status r))
                 | Rejected m \<Rightarrow> interval_armed (fst st))\<rparr>"
  by (cases outcome) (auto simp add: poll_settle_def Let_def terminal_def)

lemma effect_step_schedule:
  assumes "effect_step ev st = Some st'" and "on_schedule (fst st)"
  shows "on_schedule (fst st')"
proof (cases ev)
  case TimerFires
  with assms show ?thesis
    by (auto simp add: effect_step_def on_schedule_def poll_call_def POLL_INTERVAL_MS_def
        split: if_splits)
next
  case (FetchSettles outcome)
  with assms show ?thesis
    by (auto simp add: effect_step_def on_schedule_def poll_settle_fst split: if_splits)
next
  case Cleanup
  with assms show ?thesis
    by (auto simp add: effect_step_def on_schedule_def split: if_splits)
qed

lemma effect_events_schedule:
  "effect_events evs st = Some st' \<Longrightarrow> on_schedule (fst st) \<Longrightarrow> on_schedule (fst st')"
proof (induction evs arbitrary: st)
  case Nil
  then show ?case by simp
next
  case (Cons ev evs)
  then show ?case
    by (auto split: option.splits dest: effect_step_schedule)
qed

lemma effect_step_armed:
  assumes "effect_step ev st = Some st'" and "timer_ok (fst st)"
  shows "timer_ok (fst st') \<and> (interval_armed (fst st') \<longleftrightarrow> interval_armed (fst st) \<and> \<not> stops ev)"
proof (cases ev)
  case TimerFires
  with assms show ?thesis
    by (auto simp add: effect_step_def timer_ok_def stops_def poll_call_def split: if_splits)
next
  case (FetchSettles outcome)
  with assms show ?thesis
    by (cases outcome)
       (auto simp add: effect_step_def timer_ok_def stops_def poll_settle_def Let_def terminal_def
          split: if_splits)
next
  case Cleanup
  with assms show ?thesis
    by (auto simp add: effect_step_def timer_ok_def stops_def split: if_splits)
qed

lemma effect_events_armed:
  "effect_events evs st = Some st' \<Longrightarrow> timer_ok (fst st) \<Longrightarrow>
     timer_ok (fst st') \<and>
     (interval_armed (fst st') \<longleftrightarrow> interval_armed (fst st) \<and> (\<forall>ev \<in> set evs. \<not> stops ev))"
proof (induction evs arbitrary: st)
  case Nil
  then show ?case by simp
next
  case (Cons ev evs)
  from Cons.prems obtain st1 where s1: "effect_step ev st = Some st1"
      and r1: "effect_events evs st1 = Some st'"
    by (auto split: option.splits)
  from effect_step_armed [OF s1 Cons.prems(2)]
  have t1: "timer_ok (fst st1)"
    and a1: "interval_armed (fst st1) \<longleftrightarrow> interval_armed (fst st) \<and> \<not> stops ev"
    by simp_all
  from Cons.IH [OF r1 t1] a1 show ?case by auto
qed

lemma effect_step_unarmed:
  assumes "effect_step ev st = Some st'" and "\<not> interval_armed (fst st)"
  shows "\<not> interval_armed (fst st') \<and> requests (fst st') = requests (fst st)"
proof (cases ev)
  case TimerFires
  with assms show ?thesis
    by (simp add: effect_step_def)
next
  case (FetchSettles outcome)
  with assms show ?thesis
    by (auto simp add: effect_step_def poll_settle_fst split: if_splits fetch_outcome.splits)
next
  case Cleanup
  with assms show ?thesis
    by (auto simp add: effect_step_def split: if_splits)
qed

lemma effect_events_unarmed:
  "effect_events evs st = Some st' \<Longrightarrow> \<not> interval_armed (fst st) \<Longrightarrow>
     \<not> interval_armed (fst st') \<and> requests (fst st') = requests (fst st)"
proof (induction evs arbitrary: st)
  case Nil
  then show ?case by simp
next
  case (Cons ev evs)
  from Cons.prems obtain st1 where s1: "effect_step ev st = Some st1"
      and r1: "effect_events evs st1 = Some st'"
    by (auto split: option.splits)
  from effect_step_unarmed [OF s1 Cons.prems(2)] Cons.IH [OF r1] show ?case by simp
qed

lemma terminal_response_stops:
  assumes "\<not> cancelled (fst st)" and "terminal (status r)"
    and "effect_events (FetchSettles (Resolved r) # evs) st = Some st'"
  shows "requests (fst st') = requests (fst st)"
proof -
  from assms(3) obtain st1 where s1: "effect_step (FetchSettles (Resolved r)) st = Some st1"
      and r1: "effect_events evs st1 = Some st'"
    by (auto split: option.splits)
  from s1 assms(1,2) have "\<not> interval_armed (fst st1)" and "requests (fst st1) = requests (fst st)"
    by (auto simp add: effect_step_def poll_settle_fst split: if_splits)
  with effect_events_unarmed [OF r1] show ?thesis by simp
qed

lemma running_response_continues:
  assumes "interval_armed (fst st)" and "0 < in_flight (fst st)" and "\<not> terminal (status r)"
  shows "\<exists>st'. effect_events [FetchSettles (Resolved r), TimerFires] st = Some st'
           \<and> requests (fst st') = requests (fst st) @ [1000 * Suc (ticks (fst st))]"
  using assms
  by (simp add: effect_step_def poll_settle_fst poll_call_def POLL_INTERVAL_MS_def)


text \<open>
  C4, as amended. For the effect of a submitted job, in every state it can reach: the
  status requests went out at 0, 1000, 2000, ... milliseconds, one per firing of the
  timer after the first; the timer is still set exactly when no cleanup has run and no
  response with status done or error has arrived; a queued or running response leaves the
  timer set, so that its next firing sends the next request one second after the last;
  and once a done or error response has been handled by an effect that is not cancelled,
  no later event sends another request.
\<close>

theorem C4_polling_until_terminal:
  assumes "effect_run s0 = Some e0" and "effect_events evs (e0, s0) = Some (e, s)"
  shows "requests e = map (\<lambda>k. k * 1000) [0..<Suc (ticks e)]
   \<and> (interval_armed e \<longleftrightarrow>
        Cleanup \<notin> set evs
        \<and> (\<forall>r. FetchSettles (Resolved r) \<in> set evs \<longrightarrow> status r \<noteq> Done \<and> status r \<noteq> Error))
   \<and> (interval_armed e \<and> 0 < in_flight e \<and> status r \<noteq> Done \<and> status r \<noteq> Error \<longrightarrow>
        (\<exists>e' s'. effect_events [FetchSettles (Resolved r), TimerFires] (e, s) = Some (e', s')
                \<and> requests e' = requests e @ [1000 * Suc (ticks e)]))
   \<and> (\<not> cancelled e \<and> (status r = Done \<or> status r = Error) \<longrightarrow>
        (\<forall>evs' e' s'. effect_events (FetchSettles (Resolved r) # evs') (e, s) = Some (e', s') \<longrightarrow>
                       requests e' = requests e \<and> \<not> interval_armed e'))"
proof -
  have e0: "e0 = \<lparr> cancelled = False, interval_armed = True, ticks = 0, requests = [0], in_flight = 1 \<rparr>"
    using assms(1) by (rule effect_run_state)
  have "on_schedule (fst (e0, s0))"
    by (simp add: e0 on_schedule_def)
  from effect_events_schedule [OF assms(2) this]
  have A: "requests e = map (\<lambda>k. k * 1000) [0..<Suc (ticks e)]"
    by (simp add: on_schedule_def)
  have "timer_ok (fst (e0, s0))"
    by (simp add: e0 timer_ok_def)
  from effect_events_armed [OF assms(2) this]
  have arm: "interval_armed e \<longleftrightarrow> (\<forall>ev \<in> set evs. \<not> stops ev)"
    by (simp add: e0)
  have "(\<forall>ev \<in> set evs. \<not> stops ev) \<longleftrightarrow>
        Cleanup \<notin> set evs
        \<and> (\<forall>r. FetchSettles (Resolved r) \<in> set evs \<longrightarrow> status r \<noteq> Done \<and> status r \<noteq> Error)"
    by (auto simp add: stops_def terminal_def split: effect_event.splits fetch_outcome.splits)
  with arm have B: "interval_armed e \<longleftrightarrow>
        Cleanup \<notin> set evs
        \<and> (\<forall>r. FetchSettles (Resolved r) \<in> set evs \<longrightarrow> status r \<noteq> Done \<and> status r \<noteq> Error)"
    by simp
  have C: "interval_armed e \<and> 0 < in_flight e \<and> status r \<noteq> Done \<and> status r \<noteq> Error \<longrightarrow>
        (\<exists>e' s'. effect_events [FetchSettles (Resolved r), TimerFires] (e, s) = Some (e', s')
                \<and> requests e' = requests e @ [1000 * Suc (ticks e)])"
    using running_response_continues [of "(e, s)" r] by (auto simp add: terminal_def)
  have D: "\<not> cancelled e \<and> (status r = Done \<or> status r = Error) \<longrightarrow>
        (\<forall>evs' e' s'. effect_events (FetchSettles (Resolved r) # evs') (e, s) = Some (e', s') \<longrightarrow>
                       requests e' = requests e \<and> \<not> interval_armed e')"
  proof (intro impI allI)
    fix evs' e' s'
    assume h: "\<not> cancelled e \<and> (status r = Done \<or> status r = Error)"
      and run: "effect_events (FetchSettles (Resolved r) # evs') (e, s) = Some (e', s')"
    from h have t: "terminal (status r)" and c: "\<not> cancelled (fst (e, s))"
      by (simp_all add: terminal_def)
    from terminal_response_stops [OF c t run] have r: "requests e' = requests e"
      by simp
    have "timer_ok (fst (e, s))"
      using h by (simp add: timer_ok_def)
    from effect_events_armed [OF run this] t have "\<not> interval_armed e'"
      by (simp add: stops_def)
    with r show "requests e' = requests e \<and> \<not> interval_armed e'"
      by simp
  qed
  from A B C D show ?thesis by blast
qed

theorem C4_witness:
  "effect_run example_polling = Some example_effect
   \<and> effect_events example_events (example_effect, example_polling) \<noteq> None
   \<and> requests (fst (the (effect_events example_events (example_effect, example_polling)))) = [0, 1000]
   \<and> interval_armed (fst (the (effect_events example_events (example_effect, example_polling))))
   \<and> requests (fst (the (effect_events (example_events @ [TimerFires, FetchSettles (Resolved done_response)])
                            (example_effect, example_polling)))) = [0, 1000, 2000]
   \<and> \<not> interval_armed (fst (the (effect_events (example_events @ [TimerFires, FetchSettles (Resolved done_response)])
                            (example_effect, example_polling))))"
proof -
  have start: "effect_run example_polling = Some example_effect"
    by (simp add: effect_run_def example_polling_def upload_resolved_def truthy_string_def
        poll_call_def example_effect_def)
  let ?e1 = "\<lparr> cancelled = False, interval_armed = True, ticks = 1, requests = [0, 1000], in_flight = 0 \<rparr>"
  let ?s1 = "poll_rejected ''Failed to fetch'' (poll_resolved running_response example_polling)"
  have run1: "effect_events example_events (example_effect, example_polling) = Some (?e1, ?s1)"
    by (simp add: example_events_def example_effect_def effect_step_def poll_settle_def
        poll_call_def POLL_INTERVAL_MS_def running_response_def)
  let ?e2 = "\<lparr> cancelled = False, interval_armed = False, ticks = 2, requests = [0, 1000, 2000], in_flight = 0 \<rparr>"
  let ?s2 = "poll_resolved done_response ?s1"
  have run2: "effect_events (example_events @ [TimerFires, FetchSettles (Resolved done_response)])
                (example_effect, example_polling) = Some (?e2, ?s2)"
    by (simp add: example_events_def example_effect_def effect_step_def poll_settle_def
        poll_call_def POLL_INTERVAL_MS_def running_response_def done_response_def)
  from C4_polling_until_terminal [OF start run1, of done_response]
  have "requests ?e1 = map (\<lambda>k. k * 1000) [0..<Suc (ticks ?e1)]" and "interval_armed ?e1"
    by (simp_all add: example_events_def running_response_def)
  moreover from C4_polling_until_terminal [OF start run2, of done_response]
  have "requests ?e2 = map (\<lambda>k. k * 1000) [0..<Suc (ticks ?e2)]" and "\<not> interval_armed ?e2"
    by (simp_all add: example_events_def running_response_def done_response_def)
  ultimately show ?thesis
    using start run1 run2 by simp
qed

text \<open>
  Polling also stops without a terminal status. On the page, a running response that
  carries an artifact URL renders the results panel; its "New transcription" button sets
  the job id to null, React runs the cleanup of the effect, and polling stops with the
  last observed status still running.
\<close>

lemma example_session_state:
  "page_events example_session initial_state =
     Some (poll_resolved running_response
             (upload_resolved \<lparr> job_id = ''job-1'' \<rparr>
                (fst (handleSubmit (onFileSelected example_file initial_state)))))"
  by (simp add: example_session_def enabled_def page_step_def handleFiles_def example_file_def
      ACCEPTED_TYPES_def onFileSelected_def submit_disabled_def disableControls_def
      initial_state_def handleSubmit_def Let_def upload_resolved_def truthy_string_def)

theorem C4_counterexample:
  "effect_run example_polling = Some example_effect
   \<and> effect_events reset_while_running (example_effect, example_polling) \<noteq> None
   \<and> status_state (snd (the (effect_events reset_while_running (example_effect, example_polling)))) =
       Running
   \<and> \<not> interval_armed (fst (the (effect_events reset_while_running (example_effect, example_polling))))
   \<and> effect_events (reset_while_running @ [TimerFires]) (example_effect, example_polling) = None
   \<and> enabled (the (page_events example_session initial_state)) ResetClicked
   \<and> jobId (the (page_events example_session initial_state)) = Some ''job-1''
   \<and> jobId (page_step ResetClicked (the (page_events example_session initial_state))) = None"
proof -
  have page: "enabled (the (page_events example_session initial_state)) ResetClicked
      \<and> jobId (the (page_events example_session initial_state)) = Some ''job-1''
      \<and> jobId (page_step ResetClicked (the (page_events example_session initial_state))) = None"
    unfolding example_session_state
    by (simp add: poll_resolved_def upload_resolved_def running_response_def enabled_def
        page_step_def resetAll_def resultsUrls_def hasResults_def truthy_string_def no_urls_def)
  have start: "effect_run example_polling = Some example_effect"
    by (simp add: effect_run_def example_polling_def upload_resolved_def truthy_string_def
        poll_call_def example_effect_def)
  have run: "effect_events reset_while_running (example_effect, example_polling) =
      Some (\<lparr> cancelled = True, interval_armed = False, ticks = 0, requests = [0], in_flight = 0 \<rparr>,
            poll_resolved running_response example_polling)"
    by (simp add: reset_while_running_def example_effect_def effect_step_def poll_settle_def
        running_response_def)
  have after: "effect_events (reset_while_running @ [TimerFires]) (example_effect, example_polling) = None"
    by (simp add: reset_while_running_def example_effect_def effect_step_def poll_settle_def
        running_response_def)
  have st: "status_state (poll_resolved running_response example_polling) = Running"
    by (simp add: poll_resolved_def running_response_def)
  from start run after st page show ?thesis by simp
qed

subsection \<open>The upload request\<close>







subsection \<open>The controls of the page\<close>

lemma page_step_inv:
  assumes "upload_inv s" and "enabled s ev"
  shows "upload_inv (page_step ev s)"
proof (cases ev)
  case (FilesOffered files)
  with assms show ?thesis
    by (auto simp add: page_step_def upload_inv_def onFileSelected_def split: uploader_effect.splits)
next
  case ClearClicked
  with assms show ?thesis
    by (auto simp add: page_step_def enabled_def upload_inv_def onClearFile_def)
next
  case (FormChanged inp)
  with assms show ?thesis
    by (auto simp add: page_step_def upload_inv_def)
next
  case SubmitClicked
  with assms show ?thesis
    by (auto simp add: page_step_def enabled_def upload_inv_def handleSubmit_def Let_def
        submit_disabled_def split: option.splits)
next
  case (UploadProgress v estimatedSeconds)
  with assms show ?thesis
    by (auto simp add: page_step_def upload_inv_def upload_onProgress_def)
next
  case (UploadResolved response)
  with assms show ?thesis
    by (auto simp add: page_step_def upload_inv_def upload_resolved_def)
next
  case (UploadRejected message)
  with assms show ?thesis
    by (auto simp add: page_step_def upload_inv_def upload_rejected_def)
next
  case (PollResolved response)
  with assms show ?thesis
    by (auto simp add: page_step_def enabled_def upload_inv_def poll_resolved_def truthy_string_def)
next
  case (PollRejected message)
  with assms show ?thesis
    by (auto simp add: page_step_def upload_inv_def poll_rejected_def)
next
  case ResetClicked
  with assms show ?thesis
    by (auto simp add: page_step_def enabled_def upload_inv_def resetAll_def resultsUrls_def
        hasResults_def truthy_string_def split: option.splits)
qed

lemma page_events_inv:
  "page_events evs s = Some s' \<Longrightarrow> upload_inv s \<Longrightarrow> upload_inv s'"
proof (induction evs arbitrary: s)
  case Nil
  then show ?case by simp
next
  case (Cons ev evs)
  then show ?case
    by (auto split: if_splits dest: page_step_inv)
qed

lemma initial_inv: "upload_inv initial_state"
  by (simp add: upload_inv_def initial_state_def)

lemma disabled_blocks_form:
  "disableControls s \<Longrightarrow>
     submit_disabled s \<and> \<not> enabled s SubmitClicked \<and> \<not> enabled s (FormChanged inp)"
  by (simp add: submit_disabled_def enabled_def)

lemma reenabled_iff:
  assumes "upload_inv s" and "disableControls s" and "enabled s ev"
  shows "\<not> disableControls (page_step ev s) \<longleftrightarrow> reenables ev"
proof (cases ev)
  case (FilesOffered files)
  with assms show ?thesis
    by (auto simp add: page_step_def disableControls_def reenables_def onFileSelected_def
        split: uploader_effect.splits)
next
  case ClearClicked
  with assms show ?thesis
    by (auto simp add: page_step_def disableControls_def reenables_def onClearFile_def)
next
  case (FormChanged inp)
  with assms show ?thesis
    by (auto simp add: enabled_def)
next
  case SubmitClicked
  with assms show ?thesis
    by (auto simp add: enabled_def submit_disabled_def)
next
  case (UploadProgress v estimatedSeconds)
  with assms show ?thesis
    by (auto simp add: page_step_def enabled_def disableControls_def reenables_def
        upload_onProgress_def)
next
  case (UploadResolved response)
  with assms show ?thesis
    by (auto simp add: page_step_def enabled_def disableControls_def reenables_def
        upload_resolved_def upload_inv_def)
next
  case (UploadRejected message)
  with assms show ?thesis
    by (auto simp add: page_step_def enabled_def disableControls_def reenables_def
        upload_rejected_def upload_inv_def)
next
  case (PollResolved response)
  with assms show ?thesis
    by (auto simp add: page_step_def enabled_def disableControls_def reenables_def
        poll_resolved_def upload_inv_def truthy_string_def terminal_def)
next
  case (PollRejected message)
  with assms show ?thesis
    by (auto simp add: page_step_def enabled_def disableControls_def reenables_def
        poll_rejected_def)
next
  case ResetClicked
  with assms show ?thesis
    by (auto simp add: page_step_def enabled_def disableControls_def reenables_def
        resetAll_def upload_inv_def resultsUrls_def hasResults_def truthy_string_def
        split: option.splits)
qed

text \<open>
  C10, as amended. In every state the page can reach: each of the six controls of the
  options form is disabled exactly when an upload is in progress or a job id exists whose
  last observed status is neither done nor error; in such a state the submit button is
  disabled too, and neither a submission nor a change of the form can happen. From a
  state with the controls disabled, an event that can happen leaves them enabled exactly
  when it is the failure of the upload, a status response that is done or error, or a
  click on "New transcription", which discards the job id.
\<close>

theorem C10_controls_while_in_flight:
  assumes "page_events evs initial_state = Some s"
  shows "map snd (OptionsForm_disabled (disableControls s)) =
           replicate 6 (isUploading s
                        \<or> (jobId s \<noteq> None \<and> status_state s \<noteq> Done \<and> status_state s \<noteq> Error))
   \<and> (isUploading s \<or> (jobId s \<noteq> None \<and> status_state s \<noteq> Done \<and> status_state s \<noteq> Error) \<longrightarrow>
        submit_disabled s \<and> \<not> enabled s SubmitClicked \<and> (\<forall>inp. \<not> enabled s (FormChanged inp)))
   \<and> (disableControls s \<and> enabled s ev \<longrightarrow>
        (\<not> disableControls (page_step ev s) \<longleftrightarrow>
           (\<exists>message. ev = UploadRejected message)
           \<or> (\<exists>response. ev = PollResolved response
                          \<and> (status response = Done \<or> status response = Error))
           \<or> ev = ResetClicked))"
proof -
  have inv: "upload_inv s"
    using page_events_inv [OF assms initial_inv] .
  have A: "map snd (OptionsForm_disabled (disableControls s)) =
           replicate 6 (isUploading s
                        \<or> (jobId s \<noteq> None \<and> status_state s \<noteq> Done \<and> status_state s \<noteq> Error))"
    by (auto simp add: OptionsForm_disabled_def disableControls_def numeral_eq_Suc)
  have B: "isUploading s \<or> (jobId s \<noteq> None \<and> status_state s \<noteq> Done \<and> status_state s \<noteq> Error) \<longrightarrow>
        submit_disabled s \<and> \<not> enabled s SubmitClicked \<and> (\<forall>inp. \<not> enabled s (FormChanged inp))"
    using disabled_blocks_form [of s] by (auto simp add: disableControls_def)
  have R: "reenables ev \<longleftrightarrow>
           (\<exists>message. ev = UploadRejected message)
           \<or> (\<exists>response. ev = PollResolved response
                          \<and> (status response = Done \<or> status response = Error))
           \<or> ev = ResetClicked"
    by (cases ev) (simp_all add: reenables_def terminal_def)
  have C: "disableControls s \<and> enabled s ev \<longrightarrow>
        (\<not> disableControls (page_step ev s) \<longleftrightarrow>
           (\<exists>message. ev = UploadRejected message)
           \<or> (\<exists>response. ev = PollResolved response
                          \<and> (status response = Done \<or> status response = Error))
           \<or> ev = ResetClicked)"
    using reenabled_iff [OF inv, of ev] R by blast
  from A B C show ?thesis by blast
qed

theorem C10_counterexample:
  "page_events example_session initial_state \<noteq> None
   \<and> status_state (the (page_events example_session initial_state)) = Running
   \<and> disableControls (the (page_events example_session initial_state))
   \<and> enabled (the (page_events example_session initial_state)) ResetClicked
   \<and> \<not> disableControls (page_step ResetClicked (the (page_events example_session initial_state)))"
  unfolding example_session_state
  by (simp add: poll_resolved_def upload_resolved_def handleSubmit_def
      Let_def onFileSelected_def initial_state_def running_response_def disableControls_def
      enabled_def page_step_def resetAll_def resultsUrls_def hasResults_def truthy_string_def
      no_urls_def)

theorem C10_witness:
  "page_events (butlast example_session) initial_state \<noteq> None
   \<and> disableControls (the (page_events (butlast example_session) initial_state))
   \<and> \<not> enabled (the (page_events (butlast example_session) initial_state)) SubmitClicked
   \<and> enabled (the (page_events (butlast example_session) initial_state)) (PollResolved done_response)
   \<and> \<not> disableControls (page_step (PollResolved done_response)
                            (the (page_events (butlast example_session) initial_state)))"
proof -
  let ?s = "upload_resolved \<lparr> job_id = ''job-1'' \<rparr>
                (fst (handleSubmit (onFileSelected example_file initial_state)))"
  have run: "page_events (butlast example_session) initial_state = Some ?s"
    by (simp add: example_session_def enabled_def page_step_def handleFiles_def example_file_def
      ACCEPTED_TYPES_def onFileSelected_def submit_disabled_def disableControls_def
      initial_state_def handleSubmit_def Let_def)
  have d: "disableControls ?s"
    by (simp add: disableControls_def upload_resolved_def handleSubmit_def Let_def
        onFileSelected_def)
  have e: "enabled ?s (PollResolved done_response)"
    by (simp add: enabled_def upload_resolved_def truthy_string_def)
  have j: "jobId ?s \<noteq> None \<and> status_state ?s \<noteq> Done \<and> status_state ?s \<noteq> Error"
    by (simp add: upload_resolved_def handleSubmit_def Let_def onFileSelected_def)
  have t: "status done_response = Done"
    by (simp add: done_response_def)
  from C10_controls_while_in_flight [OF run, of "PollResolved done_response"] d e j t
  have "\<not> enabled ?s SubmitClicked"
    and "\<not> disableControls (page_step (PollResolved done_response) ?s)"
    by blast+
  with run d e show ?thesis by simp
qed

subsection \<open>Polling a job of the pipeline\<close>

lemma poll_in_turn_until_terminal:
  assumes "interval_armed (fst st)" and "\<not> cancelled (fst st)" and "0 < in_flight (fst st)"
  shows "poll_in_turn rs st = until_terminal (map snapshot rs)"
  using assms
proof (induction rs arbitrary: st)
  case Nil
  then show ?case by simp
next
  case (Cons r rs)
  let ?st' = "poll_settle (Resolved r) st"
  have step: "effect_step (FetchSettles (Resolved r)) st = Some ?st'"
    using Cons.prems by (simp add: effect_step_def)
  have page: "status_state (snd ?st') = status r" "progress_state (snd ?st') = progress r"
    using Cons.prems by (simp_all add: poll_settle_def Let_def poll_resolved_def)
  have sn: "snapshot r = (status r, progress r)"
    by (simp add: snapshot_def)
  show ?case
  proof (cases "terminal (status r)")
    case True
    then have "\<not> interval_armed (fst ?st')"
      using Cons.prems by (simp add: poll_settle_fst)
    then have "effect_step TimerFires ?st' = None"
      by (simp add: effect_step_def)
    with step page True show ?thesis
      by (simp add: sn)
  next
    case False
    let ?st'' = "(poll_call (POLL_INTERVAL_MS * Suc (ticks (fst ?st')))
                        ((fst ?st')\<lparr>ticks := Suc (ticks (fst ?st'))\<rparr>), snd ?st')"
    have armed: "interval_armed (fst ?st')" and live: "\<not> cancelled (fst ?st')"
      using Cons.prems False by (simp_all add: poll_settle_fst)
    then have tick: "effect_step TimerFires ?st' = Some ?st''"
      by (simp add: effect_step_def)
    have "interval_armed (fst ?st'')" "\<not> cancelled (fst ?st'')" "0 < in_flight (fst ?st'')"
      using armed live by (simp_all add: poll_call_def)
    from Cons.IH [OF this] have "poll_in_turn rs ?st'' = until_terminal (map snapshot rs)" .
    with step tick page False show ?thesis
      by (simp add: sn)
  qed
qed

lemma set_until_terminal: "set (until_terminal xs) \<subseteq> set xs"
  by (induction xs) auto

lemma sorted_until_terminal:
  "sorted (map snd xs) \<Longrightarrow> sorted (map snd (until_terminal xs))"
proof (induction xs)
  case Nil
  then show ?case by simp
next
  case (Cons x xs)
  then show ?case
    using set_until_terminal [of xs] by auto
qed

lemma until_terminal_butlast:
  "Suc i < length (until_terminal xs) \<Longrightarrow> \<not> terminal (fst (until_terminal xs ! i))"
proof (induction xs arbitrary: i)
  case Nil
  then show ?case by simp
next
  case (Cons x xs)
  then show ?case
    by (cases i) (auto split: if_splits)
qed

lemma until_terminal_last:
  "\<exists>x \<in> set xs. terminal (fst x) \<Longrightarrow>
     until_terminal xs \<noteq> [] \<and> terminal (fst (last (until_terminal xs)))"
proof (induction xs)
  case Nil
  then show ?case by simp
next
  case (Cons x xs)
  then show ?case
    by (cases "terminal (fst x)") auto
qed

lemma run_stages_sorted:
  "sorted (map checkpoint sts) \<Longrightarrow> \<forall>st \<in> set sts. p \<le> checkpoint st \<and> checkpoint st \<le> 100 \<Longrightarrow>
     p \<le> 100 \<Longrightarrow>
     sorted (map snd (run_stages primary sts p)) \<and> (\<forall>x \<in> set (run_stages primary sts p). p \<le> snd x)"
proof (induction sts arbitrary: p)
  case Nil
  then show ?case by simp
next
  case (Cons st sts)
  have "sorted (map checkpoint sts)"
    using Cons.prems(1) by simp
  moreover have "\<forall>s \<in> set sts. checkpoint st \<le> checkpoint s \<and> checkpoint s \<le> 100"
    using Cons.prems(1,2) by simp
  moreover have "checkpoint st \<le> 100"
    using Cons.prems(2) by simp
  ultimately have IH: "sorted (map snd (run_stages primary sts (checkpoint st)))
      \<and> (\<forall>x \<in> set (run_stages primary sts (checkpoint st)). checkpoint st \<le> snd x)"
    by (rule Cons.IH)
  have "p \<le> checkpoint st"
    using Cons.prems(2) by simp
  with IH Cons.prems(3) show ?case
    by auto
qed

lemma run_stages_last:
  "run_stages primary sts p \<noteq> [] \<and> terminal (fst (last (run_stages primary sts p)))"
  by (induction sts arbitrary: p) (auto simp add: terminal_def)

lemma job_timeline_sorted: "sorted (map snd (job_timeline primary))"
proof -
  have "sorted (map snd (run_stages primary pipeline 0))
      \<and> (\<forall>x \<in> set (run_stages primary pipeline 0). 0 \<le> snd x)"
    by (rule run_stages_sorted) (simp_all add: pipeline_def)
  then show ?thesis
    by (simp add: job_timeline_def)
qed

lemma job_timeline_last:
  "job_timeline primary \<noteq> [] \<and> terminal (fst (last (job_timeline primary)))"
  using run_stages_last [of primary pipeline 0] by (simp add: job_timeline_def)

lemma status_at_mono:
  assumes "sorted (map snd tline)" and "m \<le> n"
  shows "snd (status_at tline m) \<le> snd (status_at tline n)"
proof (cases "tline = []")
  case True
  then show ?thesis by (simp add: status_at_def)
next
  case False
  let ?i = "min m (length tline - 1)" and ?j = "min n (length tline - 1)"
  from False have "0 < length tline" by simp
  then have i: "?i < length tline" and j: "?j < length tline" by arith+
  have ij: "?i \<le> ?j"
    using assms(2) by simp
  from j have "?j < length (map snd tline)" by simp
  from sorted_nth_mono [OF assms(1) ij this]
  have "snd (tline ! ?i) \<le> snd (tline ! ?j)"
    using i j by (simp only: nth_map)
  then show ?thesis
    by (simp only: status_at_def)
qed

lemma status_at_sorted:
  "sorted (map snd tline) \<Longrightarrow> sorted ps \<Longrightarrow> sorted (map snd (map (status_at tline) ps))"
  by (induction ps) (auto simp add: status_at_mono)

lemma status_at_end:
  assumes "tline \<noteq> []" and "length tline \<le> Suc n"
  shows "status_at tline n = last tline"
proof -
  have "min n (length tline - 1) = length tline - 1"
    using assms(2) by arith
  with assms(1) show ?thesis
    by (simp add: status_at_def last_conv_nth)
qed

text \<open>
  C1. Take any run of the pipeline (whatever stages fail), and polls of the client that
  read the job record after a non-decreasing number of writes, each answered before the
  next goes out. Then the progress values the page shows, one per poll, never decrease;
  no observation but the last is done or error; and if the polls go on until the runner
  has written its last record, there is a last observation and it is done or error.
\<close>

theorem C1_polled_progress_monotone:
  assumes "sorted ps"
    and "map (\<lambda>r. (status r, progress r)) rs = map (status_at (job_timeline primary)) ps"
    and "effect_run s0 = Some e0"
  shows "sorted (map snd (poll_in_turn rs (e0, s0)))
   \<and> (\<forall>i. Suc i < length (poll_in_turn rs (e0, s0)) \<longrightarrow>
          fst (poll_in_turn rs (e0, s0) ! i) \<noteq> Done \<and> fst (poll_in_turn rs (e0, s0) ! i) \<noteq> Error)
   \<and> (ps \<noteq> [] \<and> length (job_timeline primary) \<le> Suc (last ps) \<longrightarrow>
        poll_in_turn rs (e0, s0) \<noteq> []
        \<and> (fst (last (poll_in_turn rs (e0, s0))) = Done \<or> fst (last (poll_in_turn rs (e0, s0))) = Error))"
proof -
  let ?xs = "map (status_at (job_timeline primary)) ps"
  have e0: "e0 = \<lparr> cancelled = False, interval_armed = True, ticks = 0, requests = [0], in_flight = 1 \<rparr>"
    using assms(3) by (rule effect_run_state)
  have "poll_in_turn rs (e0, s0) = until_terminal (map snapshot rs)"
    by (rule poll_in_turn_until_terminal) (simp_all add: e0)
  moreover have "map snapshot rs = map (\<lambda>r. (status r, progress r)) rs"
    by (simp add: snapshot_def)
  ultimately have obs: "poll_in_turn rs (e0, s0) = until_terminal ?xs"
    using assms(2) by simp
  have "sorted (map snd ?xs)"
    using job_timeline_sorted assms(1) by (rule status_at_sorted)
  then have A: "sorted (map snd (until_terminal ?xs))"
    by (rule sorted_until_terminal)
  have B: "\<forall>i. Suc i < length (until_terminal ?xs) \<longrightarrow>
          fst (until_terminal ?xs ! i) \<noteq> Done \<and> fst (until_terminal ?xs ! i) \<noteq> Error"
    using until_terminal_butlast [of _ ?xs] by (auto simp add: terminal_def)
  have C: "ps \<noteq> [] \<and> length (job_timeline primary) \<le> Suc (last ps) \<longrightarrow>
        until_terminal ?xs \<noteq> []
        \<and> (fst (last (until_terminal ?xs)) = Done \<or> fst (last (until_terminal ?xs)) = Error)"
  proof
    assume h: "ps \<noteq> [] \<and> length (job_timeline primary) \<le> Suc (last ps)"
    then have "status_at (job_timeline primary) (last ps) = last (job_timeline primary)"
      using job_timeline_last [of primary] by (simp add: status_at_end)
    then have "terminal (fst (status_at (job_timeline primary) (last ps)))"
      using job_timeline_last [of primary] by simp
    moreover have "last ps \<in> set ps"
      using h by simp
    ultimately have "\<exists>x \<in> set ?xs. terminal (fst x)"
      by auto
    from until_terminal_last [OF this]
    show "until_terminal ?xs \<noteq> []
        \<and> (fst (last (until_terminal ?xs)) = Done \<or> fst (last (until_terminal ?xs)) = Error)"
      by (simp add: terminal_def)
  qed
  from A B C show ?thesis
    by (simp only: obs)
qed

lemma example_timeline:
  "job_timeline transcriber_down =
     [(Queued, 0), (Running, 0), (Running, 10), (Running, 50), (Running, 65), (Running, 85),
      (Done, 100)]"
  by (simp add: job_timeline_def pipeline_def transcriber_down_def)

lemma example_responses_snapshots:
  "map (\<lambda>r. (status r, progress r)) example_responses =
     map (status_at (job_timeline transcriber_down)) example_positions"
  by (simp add: example_responses_def response_of_def)

theorem C1_witness:
  "sorted example_positions
   \<and> map (\<lambda>r. (status r, progress r)) example_responses =
       map (status_at (job_timeline transcriber_down)) example_positions
   \<and> effect_run example_polling = Some example_effect
   \<and> length (job_timeline transcriber_down) \<le> Suc (last example_positions)
   \<and> map (\<lambda>r. (status r, progress r)) example_responses =
       [(Queued, 0), (Running, 0), (Running, 0), (Running, 50), (Running, 85), (Done, 100)]
   \<and> sorted (map snd (poll_in_turn example_responses (example_effect, example_polling)))
   \<and> fst (last (poll_in_turn example_responses (example_effect, example_polling))) = Done"
proof -
  have p: "sorted example_positions"
    by (simp add: example_positions_def)
  have start: "effect_run example_polling = Some example_effect"
    by (simp add: effect_run_def example_polling_def upload_resolved_def truthy_string_def
        poll_call_def example_effect_def)
  have len: "example_positions \<noteq> [] \<and> length (job_timeline transcriber_down) \<le> Suc (last example_positions)"
    by (simp add: example_timeline example_positions_def)
  have snaps: "map (\<lambda>r. (status r, progress r)) example_responses =
       [(Queued, 0), (Running, 0), (Running, 0), (Running, 50), (Running, 85), (Done, 100)]"
    by (simp add: example_responses_snapshots example_timeline example_positions_def status_at_def)
  have obs: "poll_in_turn example_responses (example_effect, example_polling) =
       until_terminal (map snapshot example_responses)"
    by (rule poll_in_turn_until_terminal) (simp_all add: example_effect_def)
  have "map snapshot example_responses = map (\<lambda>r. (status r, progress r)) example_responses"
    by (simp add: snapshot_def)
  with obs snaps have "fst (last (poll_in_turn example_responses (example_effect, example_polling))) \<noteq> Error"
    by (simp add: terminal_def)
  with C1_polled_progress_monotone [OF p example_responses_snapshots start] len
  have "sorted (map snd (poll_in_turn example_responses (example_effect, example_polling)))"
    and "fst (last (poll_in_turn example_responses (example_effect, example_polling))) = Done"
    by blast+
  with p example_responses_snapshots start len snaps show ?thesis
    by simp
qed

end
